theory Spec2Isabelle
  imports Main
begin

section \<open>Strings\<close>

text \<open>
  A Python \<open>str\<close> is a sequence of code points. The model uses \<open>string\<close>, one \<open>char\<close> per
  code point, so it covers the code points 0..255 (ASCII and Latin-1), which is where the
  scientific names served by the API live.
\<close>

text \<open>\<open>\s\<close> in a \<open>str\<close> pattern: the code points for which \<open>str.isspace()\<close> holds.\<close>

definition is_space :: "char \<Rightarrow> bool" where
  "is_space c =
     (let n = (of_char c :: nat)
      in (9 \<le> n \<and> n \<le> 13) \<or> (28 \<le> n \<and> n \<le> 32) \<or> n = 133 \<or> n = 160)"

text \<open>The character classes \<open>[a-z]\<close> and \<open>[A-Z]\<close>.\<close>

definition is_az :: "char \<Rightarrow> bool" where
  "is_az c = (let n = (of_char c :: nat) in 97 \<le> n \<and> n \<le> 122)"

definition is_AZ :: "char \<Rightarrow> bool" where
  "is_AZ c = (let n = (of_char c :: nat) in 65 \<le> n \<and> n \<le> 90)"

text \<open>\<open>str.lower()\<close> on one code point below 256: A-Z and the Latin-1 capitals.\<close>

definition lower_char :: "char \<Rightarrow> char" where
  "lower_char c =
     (let n = (of_char c :: nat)
      in if (65 \<le> n \<and> n \<le> 90) \<or> (192 \<le> n \<and> n \<le> 222 \<and> n \<noteq> 215)
         then char_of (n + 32) else c)"

definition lower :: "string \<Rightarrow> string" where
  "lower s = map lower_char s"

text \<open>\<open>re.sub(r'[\s]+', '_', string)\<close>: every maximal run of whitespace becomes one underscore.\<close>

function sub_spaces :: "string \<Rightarrow> string" where
  "sub_spaces [] = []"
| "sub_spaces (c # cs) =
     (if is_space c then CHR ''_'' # sub_spaces (dropWhile is_space cs)
      else c # sub_spaces cs)"
  by pat_completeness auto
termination
proof (relation "measure length")
  fix c :: char and cs :: string
  have "length (dropWhile is_space cs) \<le> length cs"
    by (rule length_dropWhile_le)
  then show "(dropWhile is_space cs, c # cs) \<in> measure length"
    by simp
qed auto

text \<open>
  \<open>re.sub(r'([a-z])([A-Z])', r'\1_\2', string)\<close>: matches are found left to right and do
  not overlap; a match consumes both characters.
\<close>

fun sub_camel :: "string \<Rightarrow> string" where
  "sub_camel (a # b # cs) =
     (if is_az a \<and> is_AZ b then a # CHR ''_'' # b # sub_camel cs
      else a # sub_camel (b # cs))"
| "sub_camel cs = cs"

definition to_snake_case :: "string \<Rightarrow> string" where
  "to_snake_case string = lower (sub_camel (sub_spaces string))"

text \<open>\<open>sub in s\<close> on strings.\<close>

fun substring_in :: "string \<Rightarrow> string \<Rightarrow> bool" where
  "substring_in sub [] = (sub = [])"
| "substring_in sub (c # cs) = (take (length sub) (c # cs) = sub \<or> substring_in sub cs)"

text \<open>\<open>re.sub(r'square', 'medium', photoUrl, count=1)\<close>: the first occurrence only.\<close>

fun sub_square :: "string \<Rightarrow> string" where
  "sub_square [] = []"
| "sub_square (c # cs) =
     (if take 6 (c # cs) = ''square'' then ''medium'' @ drop 6 (c # cs)
      else c # sub_square cs)"

text \<open>\<open>str(n)\<close> of a non-negative integer, as the f-string of the file name formats it.\<close>

fun str_nat :: "nat \<Rightarrow> string" where
  "str_nat n =
     (if n < 10 then [char_of (48 + n)]
      else str_nat (n div 10) @ [char_of (48 + n mod 10)])"

declare str_nat.simps [simp del]

text \<open>\<open>os.path.join(a, b)\<close> on POSIX.\<close>

definition path_join :: "string \<Rightarrow> string \<Rightarrow> string" where
  "path_join a b =
     (if b \<noteq> [] \<and> hd b = CHR ''/'' then b
      else if a = [] \<or> last a = CHR ''/'' then a @ b
      else a @ ''/'' @ b)"

definition root_folder :: string where
  "root_folder = ''fish_photos''"

section \<open>Data\<close>

datatype py_error =
    RequestException
  | FileNotFoundError
  | NotADirectoryError
  | ZeroDivisionError
  | AttributeError
  | IndexError
  | ValueError
  | SystemExit

text \<open>What the image codec reports of a decoded image: the only part of it the code reads.\<close>

record image =
  format :: string
  width :: nat
  height :: nat
  mode :: string

text \<open>
  The answer to the GET of a photo. \<open>content_type\<close> is \<open>None\<close> when the header is
  missing (the lookup raises); \<open>content\<close> is \<open>None\<close> when \<open>Image.open\<close> raises on the body.
\<close>

record response =
  status_code :: int
  content_type :: "string option"
  content :: "image option"

record obs_query =
  taxon_id :: int
  quality_grade :: string
  order_by :: string
  photos :: bool
  per_page :: int

text \<open>An observation, as far as the code reads it: the URLs of its photos, in order.\<close>

record observation =
  observation_photos :: "string list"

record obs_response =
  obs_total_results :: int
  obs_results :: "observation list"

text \<open>A species of the source list: \<open>specy['taxon']['name']\<close> and \<open>specy['taxon']['id']\<close>.\<close>

record specy =
  specy_name :: string
  specy_id :: int

record species_response =
  sp_total_results :: int
  sp_results :: "specy list"

text \<open>The lines the program prints.\<close>

datatype message =
    RateLimitReached
  | CacheUsed string
  | SkippingNonImage string
  | SkippingNonJpegPng string
  | SkippingZeroDimensions string
  | FailedToDownload string
  | ErrorDownloading string
  | DoneSpecy string nat
  | TotalRequests int
  | RuntimeProgress int int
  | TotalSpeciesToProcess int
  | TotalSpeciesFetched nat

text \<open>
  The file system, as far as the program looks at it: a path is absent, something that is
  not a directory, or a directory with named entries. An entry is a regular file (holding
  an image) or anything else (\<open>os.path.isfile\<close> is false).
\<close>

datatype entry = File image | Subdir

datatype node = Dir "(string \<times> entry) list" | NotDir

fun is_file :: "string \<times> entry \<Rightarrow> bool" where
  "is_file (n, File i) = True"
| "is_file (n, Subdir) = False"

fun put_entry :: "string \<Rightarrow> entry \<Rightarrow> (string \<times> entry) list \<Rightarrow> (string \<times> entry) list" where
  "put_entry k v [] = [(k, v)]"
| "put_entry k v ((k', v') # es) =
     (if k = k' then (k, v) # es else (k', v') # put_entry k v es)"

text \<open>
  The globals of the module (\<open>request_count\<close>, \<open>species_done\<close>, \<open>total_results\<close>,
  \<open>cache\<close>), the file system, a clock in seconds that \<open>time.sleep\<close> advances, the
  requests sent so far (observation queries, photo GETs, name searches) and the printed
  lines. The workers of the two thread pools are run one after the other.
\<close>

record state =
  request_count :: int
  species_done :: int
  total_results :: int
  cache :: "string \<rightharpoonup> obs_response"
  fs :: "string \<rightharpoonup> node"
  clock :: nat
  api_calls :: "obs_query list"
  photo_gets :: "string list"
  searches :: "string list"
  stdout :: "message list"

definition print :: "message \<Rightarrow> state \<Rightarrow> state" where
  "print m st = st\<lparr>stdout := stdout st @ [m]\<rparr>"

text \<open>
  The remote services. \<open>api k q\<close> answers the observation query \<open>q\<close> sent after \<open>k\<close>
  earlier ones; \<open>None\<close> is a failed request (the GET or \<open>r.json()\<close> raises). \<open>http url\<close>
  answers the GET of a photo; \<open>None\<close> is \<open>requests.get\<close> raising.
\<close>

type_synonym api = "nat \<Rightarrow> obs_query \<Rightarrow> obs_response option"

type_synonym http = "string \<Rightarrow> response option"

section \<open>The rate limiter and the cache\<close>

definition respect_rate_limit :: "state \<Rightarrow> state" where
  "respect_rate_limit st =
     (if request_count st \<ge> 60
      then (print RateLimitReached st)\<lparr>clock := clock st + 60, request_count := 0\<rparr>
      else st\<lparr>request_count := request_count st + 1\<rparr>)"

definition get_observations :: "api \<Rightarrow> obs_query \<Rightarrow> state \<Rightarrow> (py_error + obs_response) \<times> state" where
  "get_observations api q st =
     (let st' = st\<lparr>api_calls := api_calls st @ [q]\<rparr>
      in case api (length (api_calls st)) q of
           None \<Rightarrow> (Inl RequestException, st')
         | Some r \<Rightarrow> (Inr r, st'))"

definition cached_get_observations ::
  "api \<Rightarrow> obs_query \<Rightarrow> string \<Rightarrow> state \<Rightarrow> (py_error + obs_response) \<times> state" where
  "cached_get_observations api q species_folder st =
     (let cache_key = species_folder
      in case cache st cache_key of
           Some v \<Rightarrow> (Inr v, print (CacheUsed species_folder) st)
         | None \<Rightarrow>
             (let st1 = respect_rate_limit st
              in case get_observations api q st1 of
                   (Inl e, st2) \<Rightarrow> (Inl e, st2)
                 | (Inr res, st2) \<Rightarrow> (Inr res, st2\<lparr>cache := (cache st2)(cache_key \<mapsto> res)\<rparr>)))"

section \<open>The species folder\<close>

definition exists_path :: "state \<Rightarrow> string \<Rightarrow> bool" where
  "exists_path st p = (fs st p \<noteq> None)"

text \<open>
  \<open>len([name for name in os.listdir(folder) if os.path.isfile(os.path.join(folder, name))])\<close>:
  \<open>os.listdir\<close> raises on a path that is absent or not a directory.
\<close>

definition count_files :: "state \<Rightarrow> string \<Rightarrow> py_error + nat" where
  "count_files st folder =
     (case fs st folder of
        None \<Rightarrow> Inl FileNotFoundError
      | Some NotDir \<Rightarrow> Inl NotADirectoryError
      | Some (Dir es) \<Rightarrow> Inr (length (filter is_file es)))"

definition create_species_folder :: "string \<Rightarrow> string \<Rightarrow> state \<Rightarrow> string \<times> state" where
  "create_species_folder root species_name st =
     (let species_folder = path_join root species_name
      in if \<not> exists_path st species_folder
         then (species_folder, st\<lparr>fs := (fs st)(species_folder \<mapsto> Dir [])\<rparr>)
         else (species_folder, st))"

section \<open>The photo downloader\<close>

text \<open>
  \<open>img.save(photo_filename)\<close> with \<open>photo_filename = f"{species_folder}/{name}"\<close>: the
  file is written when the folder is a directory and the name is not taken by something
  that is not a regular file; otherwise the save raises.
\<close>

definition save :: "image \<Rightarrow> string \<Rightarrow> string \<Rightarrow> state \<Rightarrow> state option" where
  "save img species_folder name st =
     (case fs st species_folder of
        Some (Dir es) \<Rightarrow>
          (case map_of es name of
             Some Subdir \<Rightarrow> None
           | _ \<Rightarrow> Some (st\<lparr>fs := (fs st)(species_folder \<mapsto> Dir (put_entry name (File img) es))\<rparr>))
      | _ \<Rightarrow> None)"

text \<open>
  Every exception raised inside the body is caught by \<open>except Exception\<close> and printed:
  the function returns the state only.
\<close>

definition download_and_process_photo :: "http \<Rightarrow> string \<Rightarrow> string \<Rightarrow> nat \<Rightarrow> state \<Rightarrow> state" where
  "download_and_process_photo http photo_url species_folder photo_index st0 =
     (let st = st0\<lparr>photo_gets := photo_gets st0 @ [photo_url]\<rparr>
      in case http photo_url of
           None \<Rightarrow> print (ErrorDownloading photo_url) st
         | Some response \<Rightarrow>
             if status_code response = 200 then
               (case content_type response of
                  None \<Rightarrow> print (ErrorDownloading photo_url) st
                | Some ct \<Rightarrow>
                    if \<not> substring_in ''image'' ct then print (SkippingNonImage photo_url) st
                    else
                      (case content response of
                         None \<Rightarrow> print (ErrorDownloading photo_url) st
                       | Some img \<Rightarrow>
                           if format img \<noteq> ''JPEG'' \<and> format img \<noteq> ''PNG''
                           then print (SkippingNonJpegPng photo_url) st
                           else if width img = 0 \<or> height img = 0
                           then print (SkippingZeroDimensions photo_url) st
                           else
                             (let photo_filename =
                                    ''photo_'' @ str_nat photo_index @ ''.'' @ lower (format img);
                                  img' = (if mode img \<noteq> ''RGB'' \<and> format img = ''JPEG''
                                          then img\<lparr>mode := ''RGB''\<rparr> else img)
                              in case save img' species_folder photo_filename st of
                                   None \<Rightarrow> print (ErrorDownloading photo_url) st
                                 | Some st' \<Rightarrow> st')))
             else print (FailedToDownload photo_url) st)"

text \<open>
  \<open>executor.map(lambda url: download_and_process_photo(url[1], species_folder, url[0]),
  enumerate(photo_urls))\<close> inside \<open>with ThreadPoolExecutor()\<close>, which waits for every
  download: here in the order of the indices.
\<close>

fun download_all :: "http \<Rightarrow> string \<Rightarrow> (nat \<times> string) list \<Rightarrow> state \<Rightarrow> state" where
  "download_all http species_folder [] st = st"
| "download_all http species_folder (url # urls) st =
     download_all http species_folder urls
       (download_and_process_photo http (snd url) species_folder (fst url) st)"

section \<open>The species processor\<close>

definition report_stats :: "state \<Rightarrow> (py_error + unit) \<times> state" where
  "report_stats st =
     (let st1 = print (TotalRequests (request_count st)) st
      in if total_results st1 = 0 then (Inl ZeroDivisionError, st1)
         else (Inr (), print (RuntimeProgress (species_done st1) (total_results st1)) st1))"

text \<open>The loop over \<open>obs\<close> that fills \<open>photo_urls\<close>.\<close>

fun photo_urls_of :: "observation list \<Rightarrow> string list" where
  "photo_urls_of [] = []"
| "photo_urls_of (anObs # obs) =
     (case observation_photos anObs of
        [] \<Rightarrow> photo_urls_of obs
      | photoUrl # others \<Rightarrow> sub_square photoUrl # photo_urls_of obs)"

text \<open>
  \<open>total_results\<close> is not among the names the function declares \<open>global\<close>: the
  assignment of line 150 binds a local variable, here \<open>total_results'\<close>.
\<close>

definition process_specy :: "api \<Rightarrow> http \<Rightarrow> specy \<Rightarrow> int \<Rightarrow> state \<Rightarrow> (py_error + unit) \<times> state" where
  "process_specy api http specy nb_img st =
     (let common_name = to_snake_case (specy_name specy);
          species_folder = path_join root_folder common_name;
          satisfied =
            (if exists_path st species_folder
             then (case count_files st species_folder of
                     Inl e \<Rightarrow> Inl e
                   | Inr num_images \<Rightarrow> Inr (num_images \<ge> 30))
             else Inr False)
      in case satisfied of
           Inl e \<Rightarrow> (Inl e, st)
         | Inr True \<Rightarrow> (Inr (), st\<lparr>species_done := species_done st + 1\<rparr>)
         | Inr False \<Rightarrow>
             (case create_species_folder root_folder common_name st of
                (species_folder, st1) \<Rightarrow>
                  (case cached_get_observations api
                          \<lparr>taxon_id = specy_id specy, quality_grade = ''research'',
                           order_by = ''votes'', photos = True, per_page = nb_img\<rparr>
                          species_folder st1 of
                     (Inl e, st2) \<Rightarrow> (Inl e, st2)
                   | (Inr obs, st2) \<Rightarrow>
                       (let total_results' = obs_total_results obs;
                            photo_urls = photo_urls_of (obs_results obs)
                        in case count_files st2 species_folder of
                             Inl e \<Rightarrow> (Inl e, st2)
                           | Inr num_images \<Rightarrow>
                               (let st3 =
                                      (if num_images < 100 \<and> int num_images < total_results'
                                       then download_all http species_folder
                                              (enumerate 0 photo_urls) st2
                                       else st2);
                                    st4 = st3\<lparr>species_done := species_done st3 + 1\<rparr>
                                in case count_files st4 species_folder of
                                     Inl e \<Rightarrow> (Inl e, st4)
                                   | Inr num_images' \<Rightarrow>
                                       report_stats
                                         (print (DoneSpecy common_name num_images') st4))))))"

section \<open>Bulk mode\<close>

text \<open>
  \<open>executor.map(process_specy, all_species, [nb_img] * len(all_species))\<close>: the results
  are never read, so what a worker raises is dropped and the other species still run.
\<close>

fun species_batch :: "api \<Rightarrow> http \<Rightarrow> int \<Rightarrow> specy list \<Rightarrow> state \<Rightarrow> state" where
  "species_batch api http nb_img [] st = st"
| "species_batch api http nb_img (specy # all_species) st =
     species_batch api http nb_img all_species (snd (process_specy api http specy nb_img st))"

text \<open>
  The loop \<open>while len(all_species) < total_results\<close> asks for the next page; it may run
  for ever, so it is given fuel and \<open>None\<close> is running out of it. \<open>counts page\<close> is the
  page the species-count service returns.
\<close>

fun fetch_pages :: "nat \<Rightarrow> (nat \<Rightarrow> species_response) \<Rightarrow> int \<Rightarrow> nat \<Rightarrow> specy list \<Rightarrow> specy list option" where
  "fetch_pages 0 counts total_results' page all_species = None"
| "fetch_pages (Suc fuel) counts total_results' page all_species =
     (if int (length all_species) < total_results'
      then fetch_pages fuel counts total_results' (page + 1)
             (all_species @ sp_results (counts (page + 1)))
      else Some all_species)"

text \<open>Here too \<open>total_results\<close> is a local variable (line 195).\<close>

definition process_indian_oceanic_fish_species ::
  "nat \<Rightarrow> (nat \<Rightarrow> species_response) \<Rightarrow> api \<Rightarrow> http \<Rightarrow> int \<Rightarrow> state \<Rightarrow> state option" where
  "process_indian_oceanic_fish_species fuel counts api http nb_img st =
     (let observations = counts 1;
          total_results' = sp_total_results observations;
          st1 = print (TotalSpeciesToProcess total_results') st
      in case fetch_pages fuel counts total_results' 1 (sp_results observations) of
           None \<Rightarrow> None
         | Some all_species \<Rightarrow>
             Some (species_batch api http nb_img all_species
                     (print (TotalSpeciesFetched (length all_species)) st1)))"

section \<open>The command line\<close>

text \<open>
  \<open>int(s)\<close>, the \<open>type\<close> of both arguments: white space is stripped at both ends, a sign
  may come first, then decimal digits, where one underscore may stand between two digits.
  The white space \<open>int\<close> strips is not that of the regular expressions: below code point
  127 it is tab, line feed, vertical tab, form feed, carriage return and space only (the
  separators 28 to 31 are not stripped); the spaces 133 and 160 are turned into a space
  first, so they are stripped too.
\<close>

definition is_int_space :: "char \<Rightarrow> bool" where
  "is_int_space c =
     (let n = (of_char c :: nat)
      in (9 \<le> n \<and> n \<le> 13) \<or> n = 32 \<or> n = 133 \<or> n = 160)"

definition is_digit :: "char \<Rightarrow> bool" where
  "is_digit c = (let n = (of_char c :: nat) in 48 \<le> n \<and> n \<le> 57)"

definition digit_val :: "char \<Rightarrow> int" where
  "digit_val c = int (of_char c) - 48"

definition strip :: "string \<Rightarrow> string" where
  "strip s = rev (dropWhile is_int_space (rev (dropWhile is_int_space s)))"

fun dec_digits :: "string \<Rightarrow> int \<Rightarrow> int option" where
  "dec_digits [] acc = Some acc"
| "dec_digits [c] acc = (if is_digit c then Some (10 * acc + digit_val c) else None)"
| "dec_digits (c # d # ds) acc =
     (if is_digit c then dec_digits (d # ds) (10 * acc + digit_val c)
      else if c = CHR ''_'' \<and> is_digit d then dec_digits ds (10 * acc + digit_val d)
      else None)"

text \<open>
  The limit on the number of digits of a text converted to an integer:
  \<open>max_str_digits\<close> is \<open>sys.get_int_max_str_digits()\<close>, 4300 unless configured, and 0 where
  there is no limit (also every interpreter older than the limit). Underscores are not
  counted, and a text of at most 640 digits is never refused.
\<close>

definition too_many_digits :: "nat \<Rightarrow> string \<Rightarrow> bool" where
  "too_many_digits max_str_digits body =
     (let digits = length (filter is_digit body)
      in digits > 640 \<and> max_str_digits > 0 \<and> digits > max_str_digits)"

definition default_max_str_digits :: nat where
  "default_max_str_digits = 4300"

definition py_int :: "nat \<Rightarrow> string \<Rightarrow> int option" where
  "py_int max_str_digits s =
     (case strip s of
        [] \<Rightarrow> None
      | c # cs \<Rightarrow>
          (let sign = (if c = CHR ''-'' then - 1 else 1);
               body = (if c = CHR ''-'' \<or> c = CHR ''+'' then cs else c # cs)
           in case body of
                [] \<Rightarrow> None
              | b # bs \<Rightarrow>
                  if is_digit b then
                    (case dec_digits bs (digit_val b) of
                       None \<Rightarrow> None
                     | Some v \<Rightarrow>
                         if too_many_digits max_str_digits body then None
                         else Some (sign * v))
                  else None))"

text \<open>
  What \<open>args.species\<close> can hold. The parser converts the argument with \<open>int\<close>, so it is
  \<open>None\<close> (no argument) or an integer; a string is what \<open>split\<close> would need.
\<close>

datatype py_value = PyNone | PyInt int | PyStr string

text \<open>\<open>parser.parse_args()\<close> for \<open>--species\<close>: a value \<open>int\<close> rejects ends the process.\<close>

definition parse_species :: "nat \<Rightarrow> string option \<Rightarrow> py_error + py_value" where
  "parse_species max_str_digits arg =
     (case arg of
        None \<Rightarrow> Inr PyNone
      | Some s \<Rightarrow>
          (case py_int max_str_digits s of
             None \<Rightarrow> Inl SystemExit
           | Some v \<Rightarrow> Inr (PyInt v)))"

text \<open>The truth value of \<open>if args.species:\<close>.\<close>

fun truthy :: "py_value \<Rightarrow> bool" where
  "truthy PyNone = False"
| "truthy (PyInt v) = (v \<noteq> 0)"
| "truthy (PyStr s) = (s \<noteq> [])"

fun split_comma :: "string \<Rightarrow> string list" where
  "split_comma [] = [[]]"
| "split_comma (c # cs) =
     (if c = CHR '','' then [] # split_comma cs
      else (case split_comma cs of
              [] \<Rightarrow> [[c]]
            | w # ws \<Rightarrow> (c # w) # ws))"

text \<open>\<open>args.species.split(",")\<close>: only a string has the method.\<close>

fun split_species :: "py_value \<Rightarrow> py_error + string list" where
  "split_species (PyStr s) = Inr (split_comma s)"
| "split_species v = Inl AttributeError"

text \<open>
  The loop of single-species mode. \<open>search name\<close> is the answer of the search service,
  \<open>None\<close> when the request raises. What \<open>process_specy\<close> raises ends the run.
\<close>

fun single_species ::
  "(string \<Rightarrow> species_response option) \<Rightarrow> api \<Rightarrow> http \<Rightarrow> int \<Rightarrow> string list \<Rightarrow> state
     \<Rightarrow> (py_error + unit) \<times> state" where
  "single_species search api http nb_img [] st = (Inr (), st)"
| "single_species search api http nb_img (taxonName # taxonNameList) st =
     (let st1 = st\<lparr>searches := searches st @ [taxonName]\<rparr>
      in case search taxonName of
           None \<Rightarrow> (Inl RequestException, st1)
         | Some r \<Rightarrow>
             if sp_total_results r > 0 then
               (case sp_results r of
                  [] \<Rightarrow> (Inl IndexError, st1)
                | specy # others \<Rightarrow>
                    (case process_specy api http specy nb_img st1 of
                       (Inl e, st2) \<Rightarrow> (Inl e, st2)
                     | (Inr u, st2) \<Rightarrow>
                         single_species search api http nb_img taxonNameList st2))
             else (Inl ValueError, st1))"

text \<open>
  The main program, from the text of \<open>--species\<close> (if given) and the value of
  \<open>--num_images\<close>, on an interpreter with the digit limit \<open>max_str_digits\<close>. \<open>None\<close> is
  bulk mode running out of fuel.
\<close>

definition main ::
  "nat \<Rightarrow> nat \<Rightarrow> (nat \<Rightarrow> species_response) \<Rightarrow> (string \<Rightarrow> species_response option) \<Rightarrow> api
     \<Rightarrow> http \<Rightarrow> string option \<Rightarrow> int \<Rightarrow> state \<Rightarrow> ((py_error + unit) \<times> state) option" where
  "main max_str_digits fuel counts search api http species_arg num_images st =
     (case parse_species max_str_digits species_arg of
        Inl e \<Rightarrow> Some (Inl e, st)
      | Inr args_species \<Rightarrow>
          if truthy args_species then
            (case split_species args_species of
               Inl e \<Rightarrow> Some (Inl e, st)
             | Inr taxonNameList \<Rightarrow>
                 Some (single_species search api http num_images taxonNameList st))
          else
            map_option (Pair (Inr ()))
              (process_indian_oceanic_fish_species fuel counts api http num_images st))"

text \<open>
  The state a process starts in: the counters at zero, nothing sent or printed yet, the
  cache and the file system as earlier runs left them.
\<close>

definition fresh_process :: "(string \<rightharpoonup> obs_response) \<Rightarrow> (string \<rightharpoonup> node) \<Rightarrow> state" where
  "fresh_process c f =
     \<lparr>request_count = 0, species_done = 0, total_results = 0, cache = c, fs = f,
      clock = 0, api_calls = [], photo_gets = [], searches = [], stdout = []\<rparr>"

text \<open>
  The callers of the rate limiter, \<open>lock.acquire(); respect_rate_limit(); lock.release()\<close>,
  one after the other: a caller arriving at time \<open>t\<close> gets the lock once the caller before
  it has released it, and the list holds the time at which each call returns. Everything
  but the sleep takes no time.
\<close>

fun acquisitions :: "nat list \<Rightarrow> state \<Rightarrow> nat list" where
  "acquisitions [] st = []"
| "acquisitions (t # ts) st =
     (let st' = respect_rate_limit (st\<lparr>clock := max t (clock st)\<rparr>)
      in clock st' # acquisitions ts st')"

fun after_callers :: "nat list \<Rightarrow> state \<Rightarrow> state" where
  "after_callers [] st = st"
| "after_callers (t # ts) st =
     after_callers ts (respect_rate_limit (st\<lparr>clock := max t (clock st)\<rparr>))"

section \<open>Example inputs\<close>

definition blue_tang :: specy where
  "blue_tang = \<lparr>specy_name = ''Blue Tang'', specy_id = 7\<rparr>"

definition a_photo :: image where
  "a_photo = \<lparr>format = ''JPEG'', width = 4, height = 3, mode = ''RGB''\<rparr>"

definition files :: "nat \<Rightarrow> (string \<times> entry) list" where
  "files n = map (\<lambda>i. (''photo_'' @ str_nat i @ ''.jpeg'', File a_photo)) [0..<n]"

definition with_files :: "nat \<Rightarrow> state" where
  "with_files n = fresh_process Map.empty [''fish_photos/blue_tang'' \<mapsto> Dir (files n)]"

definition no_api :: api where
  "no_api k q = None"

definition no_http :: http where
  "no_http url = None"

definition empty_result :: obs_response where
  "empty_result = \<lparr>obs_total_results = 0, obs_results = []\<rparr>"

definition query :: "int \<Rightarrow> int \<Rightarrow> obs_query" where
  "query i n = \<lparr>taxon_id = i, quality_grade = ''research'', order_by = ''votes'',
                photos = True, per_page = n\<rparr>"

definition html_page :: response where
  "html_page = \<lparr>status_code = 200, content_type = Some ''text/html'', content = Some a_photo\<rparr>"

definition flat_photo :: response where
  "flat_photo = \<lparr>status_code = 200, content_type = Some ''image/jpeg'',
                  content = Some (a_photo\<lparr>width := 0\<rparr>)\<rparr>"

definition cmyk_photo :: response where
  "cmyk_photo = \<lparr>status_code = 200, content_type = Some ''image/jpeg'',
                  content = Some (a_photo\<lparr>mode := ''CMYK''\<rparr>)\<rparr>"

definition one_observation :: obs_response where
  "one_observation =
     \<lparr>obs_total_results = 8,
      obs_results = [\<lparr>observation_photos = [''https://x/photos/1/square.jpg'']\<rparr>]\<rparr>"

definition five_files_cached :: state where
  "five_files_cached =
     fresh_process [''fish_photos/blue_tang'' \<mapsto> one_observation]
       [''fish_photos/blue_tang'' \<mapsto> Dir (files 5)]"

definition jpeg_http :: http where
  "jpeg_http url =
     Some \<lparr>status_code = 200, content_type = Some ''image/jpeg'', content = Some a_photo\<rparr>"

definition no_species :: "nat \<Rightarrow> species_response" where
  "no_species page = \<lparr>sp_total_results = 0, sp_results = []\<rparr>"

definition no_search :: "string \<Rightarrow> species_response option" where
  "no_search name = None"

section \<open>Relations between two states\<close>

text \<open>What a photo download leaves alone.\<close>

definition same_counters :: "state \<Rightarrow> state \<Rightarrow> bool" where
  "same_counters st st' =
     (request_count st' = request_count st \<and> species_done st' = species_done st \<and>
      total_results st' = total_results st \<and> cache st' = cache st \<and>
      clock st' = clock st \<and> api_calls st' = api_calls st \<and> searches st' = searches st)"

text \<open>The three things that can happen to \<open>request_count\<close>.\<close>

definition counted :: "state \<Rightarrow> state \<Rightarrow> bool" where
  "counted st st' =
     (request_count st' = request_count st \<or> request_count st' = request_count st + 1 \<or>
      (60 \<le> request_count st \<and> request_count st' < request_count st))"

definition kept :: "state \<Rightarrow> state \<Rightarrow> bool" where
  "kept st st' = (total_results st' = total_results st \<and> searches st' = searches st)"

section \<open>What each operation leaves alone\<close>

lemma respect_rate_limit_fields:
  "api_calls (respect_rate_limit st) = api_calls st"
  "cache (respect_rate_limit st) = cache st"
  "fs (respect_rate_limit st) = fs st"
  "species_done (respect_rate_limit st) = species_done st"
  "total_results (respect_rate_limit st) = total_results st"
  "photo_gets (respect_rate_limit st) = photo_gets st"
  "searches (respect_rate_limit st) = searches st"
  by (simp_all add: respect_rate_limit_def print_def)

lemma print_fields:
  "request_count (print m st) = request_count st"
  "species_done (print m st) = species_done st"
  "total_results (print m st) = total_results st"
  "cache (print m st) = cache st"
  "fs (print m st) = fs st"
  "clock (print m st) = clock st"
  "api_calls (print m st) = api_calls st"
  "photo_gets (print m st) = photo_gets st"
  "searches (print m st) = searches st"
  by (simp_all add: print_def)

lemma save_same_counters: "save img folder name st = Some st' \<Longrightarrow> same_counters st st'"
  by (auto simp: save_def same_counters_def split: option.splits node.splits entry.splits)

lemma same_counters_print: "same_counters st st' \<Longrightarrow> same_counters st (print m st')"
  by (simp add: same_counters_def print_fields)

lemma same_counters_trans: "same_counters a b \<Longrightarrow> same_counters b c \<Longrightarrow> same_counters a c"
  by (simp add: same_counters_def)

lemma same_counters_gets: "same_counters st (st\<lparr>photo_gets := g\<rparr>)"
  by (simp add: same_counters_def)

lemma download_same_counters:
  "same_counters st (download_and_process_photo http url folder i st)"
proof -
  let ?st = "st\<lparr>photo_gets := photo_gets st @ [url]\<rparr>"
  have base: "same_counters st ?st" by (rule same_counters_gets)
  have p: "\<And>m. same_counters st (print m ?st)"
    using base by (rule same_counters_print)
  have s: "\<And>img n st'. save img folder n ?st = Some st' \<Longrightarrow> same_counters st st'"
    using base save_same_counters same_counters_trans by blast
  show ?thesis
    unfolding download_and_process_photo_def Let_def
    by (auto simp: p s split: option.splits)
qed

lemma download_all_same_counters:
  "same_counters st (download_all http folder urls st)"
proof (induction urls arbitrary: st)
  case Nil
  show ?case by (simp add: same_counters_def)
next
  case (Cons u urls)
  show ?case
    using download_same_counters Cons.IH same_counters_trans by (simp, blast)
qed


lemma respect_rate_limit_counted:
  "request_count (respect_rate_limit st) = request_count st + 1 \<or>
   (60 \<le> request_count st \<and> request_count (respect_rate_limit st) < request_count st)"
  by (simp add: respect_rate_limit_def print_def)

lemma cached_get_observations_frame:
  assumes "cached_get_observations api q key st = (r, st')"
  shows "kept st st' \<and> counted st st' \<and> fs st' = fs st \<and> species_done st' = species_done st \<and>
         photo_gets st' = photo_gets st"
proof (cases "cache st key")
  case (Some v)
  with assms show ?thesis
    by (auto simp: cached_get_observations_def Let_def kept_def counted_def print_fields)
next
  case None
  let ?s = "respect_rate_limit st"
  have "st' = ?s\<lparr>api_calls := api_calls ?s @ [q]\<rparr> \<or>
        (\<exists>res. st' = ?s\<lparr>api_calls := api_calls ?s @ [q], cache := (cache ?s)(key \<mapsto> res)\<rparr>)"
    using assms None
    by (auto simp: cached_get_observations_def get_observations_def Let_def split: option.splits)
  then show ?thesis
    using respect_rate_limit_counted [of st]
    by (auto simp: kept_def counted_def respect_rate_limit_fields)
qed

lemma report_stats_frame:
  "kept st (snd (report_stats st)) \<and> request_count (snd (report_stats st)) = request_count st"
  by (simp add: report_stats_def Let_def kept_def print_fields)

lemma process_specy_frame:
  "kept st (snd (process_specy api http specy nb_img st)) \<and>
   counted st (snd (process_specy api http specy nb_img st))"
proof -
  let ?folder = "path_join root_folder (to_snake_case (specy_name specy))"
  let ?q = "\<lparr>taxon_id = specy_id specy, quality_grade = ''research'',
             order_by = ''votes'', photos = True, per_page = nb_img\<rparr>"
  obtain st1 where st1: "create_species_folder root_folder (to_snake_case (specy_name specy)) st
      = (?folder, st1)"
    by (cases "exists_path st ?folder") (simp_all add: create_species_folder_def Let_def)
  have k1: "kept st st1 \<and> request_count st1 = request_count st"
    using st1 by (auto simp: create_species_folder_def Let_def kept_def split: if_splits)
  obtain r st2 where c: "cached_get_observations api ?q ?folder st1 = (r, st2)"
    by (cases "cached_get_observations api ?q ?folder st1") simp
  have k2: "kept st st2 \<and> counted st st2"
    using cached_get_observations_frame [OF c] k1 by (simp add: kept_def counted_def)
  have k3: "\<And>urls. kept st (download_all http ?folder urls st2) \<and>
                 counted st (download_all http ?folder urls st2)"
    using k2 download_all_same_counters [of st2 http ?folder]
    by (simp add: kept_def counted_def same_counters_def)
  have k4: "\<And>s m. kept st s \<and> counted st s \<Longrightarrow>
      kept st (snd (report_stats (print m (s\<lparr>species_done := species_done s + 1\<rparr>)))) \<and>
      counted st (snd (report_stats (print m (s\<lparr>species_done := species_done s + 1\<rparr>))))"
    by (simp add: report_stats_def Let_def kept_def counted_def print_fields)
  have k0: "kept st st \<and> counted st st" "kept st (st\<lparr>species_done := species_done st + 1\<rparr>)"
      "counted st (st\<lparr>species_done := species_done st + 1\<rparr>)"
    by (simp_all add: kept_def counted_def)
  have k5: "\<And>s. kept st s \<and> counted st s \<Longrightarrow>
      kept st (s\<lparr>species_done := species_done s + 1\<rparr>) \<and>
      counted st (s\<lparr>species_done := species_done s + 1\<rparr>)"
    by (simp add: kept_def counted_def)
  show ?thesis
    unfolding process_specy_def Let_def st1 
    using k0 k2 k3 k4 k5 c
    by (auto split: sum.splits bool.splits)
qed

lemma species_batch_kept: "kept st (species_batch api http nb_img all_species st)"
proof (induction all_species arbitrary: st)
  case Nil
  show ?case by (simp add: kept_def)
next
  case (Cons specy all_species)
  have "kept st (snd (process_specy api http specy nb_img st))"
    using process_specy_frame by simp
  moreover have "kept (snd (process_specy api http specy nb_img st))
     (species_batch api http nb_img all_species (snd (process_specy api http specy nb_img st)))"
    by (rule Cons.IH)
  ultimately show ?case by (simp add: kept_def)
qed

lemma report_stats_raises: "total_results st = 0 \<Longrightarrow> fst (report_stats st) = Inl ZeroDivisionError"
  by (simp add: report_stats_def Let_def print_fields)

lemma process_specy_returns:
  assumes z: "total_results st = 0"
    and r: "fst (process_specy api http specy nb_img st) = Inr ()"
  shows "snd (process_specy api http specy nb_img st) = st\<lparr>species_done := species_done st + 1\<rparr>"
proof -
  let ?folder = "path_join root_folder (to_snake_case (specy_name specy))"
  let ?q = "\<lparr>taxon_id = specy_id specy, quality_grade = ''research'',
             order_by = ''votes'', photos = True, per_page = nb_img\<rparr>"
  obtain st1 where st1: "create_species_folder root_folder (to_snake_case (specy_name specy)) st
      = (?folder, st1)"
    by (cases "exists_path st ?folder") (simp_all add: create_species_folder_def Let_def)
  have k1: "total_results st1 = 0"
    using st1 z by (auto simp: create_species_folder_def Let_def split: if_splits)
  obtain res st2 where c: "cached_get_observations api ?q ?folder st1 = (res, st2)"
    by (cases "cached_get_observations api ?q ?folder st1") simp
  have k2: "total_results st2 = 0"
    using cached_get_observations_frame [OF c] k1 by (simp add: kept_def)
  have k3: "\<And>urls. total_results (download_all http ?folder urls st2) = 0"
    using k2 download_all_same_counters [of st2 http ?folder] by (simp add: same_counters_def)
  have k4: "\<And>s m. total_results s = 0 \<Longrightarrow>
      fst (report_stats (print m (s\<lparr>species_done := species_done s + 1\<rparr>))) = Inl ZeroDivisionError"
    by (simp add: report_stats_raises print_fields)
  show ?thesis
    using r k2 k3 k4 c
    unfolding process_specy_def Let_def st1
    by (auto split: sum.splits bool.splits if_splits)
qed

lemma bulk_mode_kept:
  assumes "process_indian_oceanic_fish_species fuel counts api http nb_img st = Some st'"
  shows "kept st st'"
proof -
  obtain m1 m2 all_species where
    "st' = species_batch api http nb_img all_species (print m2 (print m1 st))"
    using assms
    by (auto simp: process_indian_oceanic_fish_species_def Let_def split: option.splits)
  then show ?thesis
    using species_batch_kept [of "print m2 (print m1 st)" api http nb_img all_species]
    by (simp add: kept_def print_fields)
qed

lemma text_html_is_no_image: "\<not> substring_in ''image'' ''text/html''"
  by code_simp

lemma lower_JPEG: "lower ''JPEG'' = ''jpeg''"
  by code_simp

lemma save_fs:
  "save img folder name st = Some st' \<Longrightarrow>
     \<exists>es. fs st folder = Some (Dir es) \<and>
          fs st' = (fs st)(folder \<mapsto> Dir (put_entry name (File img) es))"
  by (auto simp: save_def split: option.splits node.splits entry.splits)

text \<open>What \<open>int\<close> accepts holds no comma.\<close>

lemma dec_digits_chars:
  "dec_digits cs acc = Some v \<Longrightarrow> c \<in> set cs \<Longrightarrow> is_digit c \<or> c = CHR ''_''"
  by (induction cs acc rule: dec_digits.induct) (auto split: if_splits)

lemma set_dropWhile_back: "c \<in> set xs \<Longrightarrow> c \<in> set (dropWhile P xs) \<or> P c"
  by (induction xs) (auto split: if_splits)

lemma strip_chars: "c \<in> set s \<Longrightarrow> c \<in> set (strip s) \<or> is_int_space c"
proof -
  assume "c \<in> set s"
  then have "c \<in> set (dropWhile is_int_space s) \<or> is_int_space c"
    by (rule set_dropWhile_back)
  moreover have "c \<in> set (dropWhile is_int_space s) \<Longrightarrow>
      c \<in> set (dropWhile is_int_space (rev (dropWhile is_int_space s))) \<or> is_int_space c"
    using set_dropWhile_back [of c "rev (dropWhile is_int_space s)" is_int_space] by simp
  ultimately show ?thesis
    by (auto simp: strip_def)
qed

lemma comma_is_plain:
  "\<not> is_int_space CHR '',''" "\<not> is_digit CHR '',''"
  by (simp_all add: is_int_space_def is_digit_def)

lemma py_int_no_comma:
  assumes "py_int max_str_digits s = Some v"
  shows "CHR '','' \<notin> set s"
proof
  assume "CHR '','' \<in> set s"
  then have m: "CHR '','' \<in> set (strip s)"
    using strip_chars comma_is_plain by blast
  obtain c cs where s: "strip s = c # cs"
    using assms by (cases "strip s") (simp_all add: py_int_def)
  let ?body = "if c = CHR ''-'' \<or> c = CHR ''+'' then cs else c # cs"
  have b: "CHR '','' \<in> set ?body"
    using m s by auto
  obtain b bs where body: "?body = b # bs"
    using b by (cases ?body) auto
  obtain w where d: "is_digit b" "dec_digits bs (digit_val b) = Some w"
    using assms s body by (auto simp: py_int_def Let_def split: if_splits option.splits)
  have "CHR '','' \<in> set bs"
    using b body d(1) comma_is_plain by auto
  then show False
    using dec_digits_chars [OF d(2)] comma_is_plain by auto
qed

section \<open>Folder keys\<close>

text \<open>
  C7. The folder key is a function of the species name alone, and the names
  \<open>Blue Tang\<close>, \<open>BlueTang\<close> and \<open>blue_tang\<close> all have the key \<open>blue_tang\<close>.
\<close>

theorem to_snake_case_blue_tang:
  "to_snake_case ''Blue Tang'' = ''blue_tang'' \<and>
   to_snake_case ''BlueTang'' = ''blue_tang'' \<and>
   to_snake_case ''blue_tang'' = ''blue_tang''"
  by code_simp

section \<open>Resuming\<close>

text \<open>
  C3. A species whose folder exists and holds at least 30 regular files is skipped: the
  processor returns with \<open>species_done\<close> one higher and everything else as it was, so no
  request was sent, the cache was not touched and the folder holds the same files.
\<close>

theorem satisfied_species_is_skipped:
  assumes "fs st (path_join root_folder (to_snake_case (specy_name specy))) = Some (Dir es)"
    and "30 \<le> length (filter is_file es)"
  shows "process_specy api http specy nb_img st =
           (Inr (), st\<lparr>species_done := species_done st + 1\<rparr>)"
  using assms by (simp add: process_specy_def exists_path_def count_files_def Let_def)

theorem satisfied_species_is_skipped_witness:
  "fs (with_files 30) (path_join root_folder (to_snake_case (specy_name blue_tang)))
     = Some (Dir (files 30)) \<and>
   30 \<le> length (filter is_file (files 30)) \<and>
   process_specy no_api no_http blue_tang 100 (with_files 30) =
     (Inr (), (with_files 30)\<lparr>species_done := species_done (with_files 30) + 1\<rparr>)"
proof -
  have h1: "fs (with_files 30) (path_join root_folder (to_snake_case (specy_name blue_tang)))
     = Some (Dir (files 30))"
    by code_simp
  have h2: "30 \<le> length (filter is_file (files 30))"
    by code_simp
  show ?thesis
    using h1 h2 satisfied_species_is_skipped [OF h1 h2, of no_api no_http 100] by simp
qed

section \<open>The response cache\<close>

text \<open>
  C4. Two fetches for one folder key, the key not cached before and the first request
  answered: both return the same response, one request is sent in all, and the second
  fetch does nothing but print its line (it does not reach the rate limiter: the request
  counter and the clock are as the first fetch left them). In any state, a fetch for a
  cached key returns the cached response and only prints.
\<close>

theorem second_fetch_is_served_by_the_cache:
  assumes "cache st key = None"
    and "api (length (api_calls st)) q = Some res"
  shows "(let st1 = snd (cached_get_observations api q key st);
              st2 = snd (cached_get_observations api q' key st1)
          in fst (cached_get_observations api q key st) = Inr res \<and>
             fst (cached_get_observations api q' key st1) = Inr res \<and>
             api_calls st1 = api_calls st @ [q] \<and>
             api_calls st2 = api_calls st @ [q] \<and>
             request_count st2 = request_count st1 \<and>
             clock st2 = clock st1 \<and>
             st2 = print (CacheUsed key) st1) \<and>
         (cache st' key = Some v \<longrightarrow>
            cached_get_observations api q' key st' = (Inr v, print (CacheUsed key) st'))"
  using assms
  by (simp add: cached_get_observations_def get_observations_def Let_def
      respect_rate_limit_fields print_fields)

theorem second_fetch_is_served_by_the_cache_witness:
  "cache (with_files 0) ''fish_photos/blue_tang'' = None \<and>
   fst (cached_get_observations (\<lambda>k q. Some empty_result) (query 7 100) ''fish_photos/blue_tang''
          (with_files 0)) = Inr empty_result \<and>
   api_calls (snd (cached_get_observations (\<lambda>k q. Some empty_result) (query 7 5)
      ''fish_photos/blue_tang''
      (snd (cached_get_observations (\<lambda>k q. Some empty_result) (query 7 100)
              ''fish_photos/blue_tang'' (with_files 0))))) = [query 7 100]"
proof -
  have h1: "cache (with_files 0) ''fish_photos/blue_tang'' = None"
    by (simp add: with_files_def fresh_process_def)
  have h3: "api_calls (with_files 0) = []"
    by (simp add: with_files_def fresh_process_def)
  show ?thesis
    using h1 h3 second_fetch_is_served_by_the_cache
      [where api = "\<lambda>k q. Some empty_result" and q = "query 7 100" and q' = "query 7 5"
         and key = "''fish_photos/blue_tang''" and st = "with_files 0" and res = empty_result]
    by (simp add: Let_def print_fields)
qed

section \<open>A failed observation query\<close>

text \<open>
  C1, as the spec states it, fails: when the observation query of a species fails,
  \<open>process_specy\<close> does not catch the failure. Here the request fails for a species with
  an empty folder: the call ends with the exception, \<open>species_done\<close> is still 0 and
  nothing was printed.
\<close>

theorem failed_fetch_is_not_caught_example:
  "fst (process_specy no_api no_http blue_tang 100 (with_files 0)) = Inl RequestException \<and>
   species_done (snd (process_specy no_api no_http blue_tang 100 (with_files 0))) = 0 \<and>
   stdout (snd (process_specy no_api no_http blue_tang 100 (with_files 0))) = []"
  by code_simp

text \<open>
  C1, amended. For a species that is not skipped and not cached, a failed observation
  query leaves \<open>process_specy\<close> as the exception: \<open>species_done\<close> is not incremented,
  nothing is cached, no photo is requested and nothing is printed about the failure (the
  rate limiter's line apart). In bulk mode the batch drops the exception and goes on with
  the other species.
\<close>

theorem failed_fetch_propagates:
  assumes "case fs st (path_join root_folder (to_snake_case (specy_name specy))) of
             None \<Rightarrow> True
           | Some NotDir \<Rightarrow> False
           | Some (Dir es) \<Rightarrow> length (filter is_file es) < 30"
    and "cache st (path_join root_folder (to_snake_case (specy_name specy))) = None"
    and "api (length (api_calls st)) (query (specy_id specy) nb_img) = None"
  shows "(let st' = snd (process_specy api http specy nb_img st)
          in fst (process_specy api http specy nb_img st) = Inl RequestException \<and>
             species_done st' = species_done st \<and>
             cache st' = cache st \<and>
             photo_gets st' = photo_gets st \<and>
             api_calls st' = api_calls st @ [query (specy_id specy) nb_img] \<and>
             stdout st' =
               (if 60 \<le> request_count st then stdout st @ [RateLimitReached] else stdout st) \<and>
             species_batch api http nb_img (specy # others) st =
               species_batch api http nb_img others st')"
proof (cases "fs st (path_join root_folder (to_snake_case (specy_name specy)))")
  case None
  then show ?thesis
    using assms(2,3)
    by (simp add: process_specy_def create_species_folder_def cached_get_observations_def
        get_observations_def respect_rate_limit_def print_def exists_path_def count_files_def
        Let_def query_def)
next
  case (Some n)
  then obtain es where es: "n = Dir es" "length (filter is_file es) < 30"
    using assms(1) by (cases n) simp_all
  show ?thesis
    using Some es assms(2,3)
    by (simp add: process_specy_def create_species_folder_def cached_get_observations_def
        get_observations_def respect_rate_limit_def print_def exists_path_def count_files_def
        Let_def query_def)
qed

theorem failed_fetch_propagates_witness:
  "fs (with_files 0) (path_join root_folder (to_snake_case (specy_name blue_tang)))
     = Some (Dir []) \<and>
   cache (with_files 0) (path_join root_folder (to_snake_case (specy_name blue_tang))) = None \<and>
   no_api (length (api_calls (with_files 0))) (query (specy_id blue_tang) 100) = None \<and>
   fst (process_specy no_api no_http blue_tang 100 (with_files 0)) = Inl RequestException \<and>
   species_done (snd (process_specy no_api no_http blue_tang 100 (with_files 0)))
     = species_done (with_files 0)"
proof -
  have h0: "fs (with_files 0) (path_join root_folder (to_snake_case (specy_name blue_tang)))
     = Some (Dir [])"
    by code_simp
  have h1: "case fs (with_files 0) (path_join root_folder (to_snake_case (specy_name blue_tang))) of
             None \<Rightarrow> True
           | Some NotDir \<Rightarrow> False
           | Some (Dir es) \<Rightarrow> length (filter is_file es) < 30"
    by (simp add: h0)
  have h2: "cache (with_files 0) (path_join root_folder (to_snake_case (specy_name blue_tang)))
              = None"
    by (simp add: with_files_def fresh_process_def)
  have h3: "no_api (length (api_calls (with_files 0))) (query (specy_id blue_tang) 100) = None"
    by (simp add: no_api_def)
  show ?thesis
    using h0 h2 h3 failed_fetch_propagates
      [where api = no_api and http = no_http and specy = blue_tang and nb_img = 100
         and st = "with_files 0" and others = "[]", OF h1 h2 h3]
    by (simp add: Let_def)
qed

section \<open>The request counter\<close>

text \<open>
  C6, as the spec states it, fails: \<open>request_count\<close> is not monotone. From a fresh
  process it is 60 after 60 calls of the rate limiter and 0 after the next one.
\<close>

theorem request_count_is_reset:
  "request_count (after_callers (replicate 60 0) (fresh_process Map.empty Map.empty)) = 60 \<and>
   request_count (after_callers (replicate 61 0) (fresh_process Map.empty Map.empty)) = 0"
  by code_simp

text \<open>
  C6, amended. \<open>request_count\<close> is not monotone: a call of the rate limiter adds one to
  it while it is below 60, and lowers it once it has reached 60 (the reset that follows
  the sleep of 60 seconds). Nothing else changes it: a photo download and the progress
  report leave it alone, and one run of the species processor makes at most one such step.
\<close>

theorem request_count_steps:
  "(if 60 \<le> request_count st
    then request_count (respect_rate_limit st) < request_count st
    else request_count (respect_rate_limit st) = request_count st + 1) \<and>
   request_count (download_and_process_photo http url folder i st) = request_count st \<and>
   request_count (snd (report_stats st)) = request_count st \<and>
   (request_count (snd (process_specy api http specy nb_img st)) = request_count st \<or>
    request_count (snd (process_specy api http specy nb_img st)) = request_count st + 1 \<or>
    (60 \<le> request_count st \<and>
     request_count (snd (process_specy api http specy nb_img st)) < request_count st))"
proof -
  have "if 60 \<le> request_count st
    then request_count (respect_rate_limit st) < request_count st
    else request_count (respect_rate_limit st) = request_count st + 1"
    by (simp add: respect_rate_limit_def print_def)
  moreover have "request_count (download_and_process_photo http url folder i st) = request_count st"
    using download_same_counters [of st http url folder i] by (simp add: same_counters_def)
  moreover have "request_count (snd (report_stats st)) = request_count st"
    using report_stats_frame by simp
  moreover have "counted st (snd (process_specy api http specy nb_img st))"
    using process_specy_frame by simp
  ultimately show ?thesis
    unfolding counted_def by blast
qed

section \<open>The rate limit\<close>

text \<open>
  C2. The limit of 60 calls in any 60 seconds is not kept. With 121 callers all waiting
  at time 0, the first 60 return at once, the next one sleeps and returns at time 60 with
  the counter at zero (its own request is not counted), and the 60 after it return at time
  60 as well: 61 calls return in the window from 60 to 120.
\<close>

theorem sixty_one_acquisitions_in_one_window:
  "filter (\<lambda>t. 60 \<le> t \<and> t < 120)
     (acquisitions (replicate 121 0) (fresh_process Map.empty Map.empty)) = replicate 61 60"
  by code_simp

section \<open>The progress report\<close>

text \<open>
  C9. \<open>total_results\<close>, the divisor of the progress report, is zero when the process
  starts and no operation writes it: the species processor and the bulk enumerator assign
  local variables of that name. So in every state of a bulk run the report raises
  ZeroDivisionError, and a species processor that returns normally is one that skipped its
  species (the others end in the report).
\<close>

theorem report_stats_always_raises:
  assumes "total_results st0 = 0"
  shows "(let st = species_batch api http nb_img all_species st0
          in total_results st = 0 \<and>
             fst (report_stats st) = Inl ZeroDivisionError \<and>
             (fst (process_specy api http specy nb_img st) = Inr () \<longrightarrow>
                snd (process_specy api http specy nb_img st)
                  = st\<lparr>species_done := species_done st + 1\<rparr>)) \<and>
         (\<forall>st'. process_indian_oceanic_fish_species fuel counts api http nb_img st0 = Some st'
            \<longrightarrow> total_results st' = 0 \<and> fst (report_stats st') = Inl ZeroDivisionError)"
proof -
  have z: "total_results (species_batch api http nb_img all_species st0) = 0"
    using species_batch_kept [of st0 api http nb_img all_species] assms by (simp add: kept_def)
  have b: "\<And>st'. process_indian_oceanic_fish_species fuel counts api http nb_img st0 = Some st'
            \<Longrightarrow> total_results st' = 0 \<and> fst (report_stats st') = Inl ZeroDivisionError"
    using bulk_mode_kept [of fuel counts api http nb_img st0] assms report_stats_raises
    by (simp add: kept_def)
  show ?thesis
    using z report_stats_raises [OF z] process_specy_returns [OF z] b
    by (simp add: Let_def)
qed

theorem report_stats_always_raises_witness:
  "total_results (with_files 30) = 0 \<and>
   fst (report_stats (species_batch no_api no_http 100 [blue_tang] (with_files 30)))
     = Inl ZeroDivisionError \<and>
   fst (process_specy no_api no_http blue_tang 100
          (species_batch no_api no_http 100 [blue_tang] (with_files 30))) = Inr () \<and>
   species_done (snd (process_specy no_api no_http blue_tang 100
          (species_batch no_api no_http 100 [blue_tang] (with_files 30)))) = 2"
proof -
  have h: "total_results (with_files 30) = 0"
    by (simp add: with_files_def fresh_process_def)
  have r: "fst (process_specy no_api no_http blue_tang 100
          (species_batch no_api no_http 100 [blue_tang] (with_files 30))) = Inr ()"
    by code_simp
  have d: "species_done (species_batch no_api no_http 100 [blue_tang] (with_files 30)) = 1"
    by code_simp
  show ?thesis
    using h r d report_stats_always_raises
      [OF h, where api = no_api and http = no_http and nb_img = 100
         and all_species = "[blue_tang]" and specy = blue_tang]
    by (simp add: Let_def)
qed

section \<open>Photo validation\<close>

text \<open>
  C8. A response declared \<open>text/html\<close> writes nothing; an image decoded with width 0
  writes nothing; a JPEG decoded in another mode than RGB is saved in RGB, as
  \<open>photo_<index>.jpeg\<close>. Whatever the response, either nothing is written or the one file
  \<open>photo_<index>.<format in lower case>\<close> is, in the folder of the species.
\<close>

theorem photo_validation:
  "(http url = Some r \<and> content_type r = Some ''text/html'' \<longrightarrow>
      fs (download_and_process_photo http url folder i st) = fs st) \<and>
   (http url = Some r \<and> content r = Some img \<and> width img = 0 \<longrightarrow>
      fs (download_and_process_photo http url folder i st) = fs st) \<and>
   (http url = Some r \<and> status_code r = 200 \<and> content_type r = Some ct \<and>
    substring_in ''image'' ct \<and> content r = Some img \<and> format img = ''JPEG'' \<and>
    mode img \<noteq> ''RGB'' \<and> width img \<noteq> 0 \<and> height img \<noteq> 0 \<and>
    fs st folder = Some (Dir es) \<and>
    map_of es (''photo_'' @ str_nat i @ ''.jpeg'') \<noteq> Some Subdir \<longrightarrow>
      fs (download_and_process_photo http url folder i st) =
        (fs st)(folder \<mapsto>
           Dir (put_entry (''photo_'' @ str_nat i @ ''.jpeg'')
                  (File (img\<lparr>mode := ''RGB''\<rparr>)) es))) \<and>
   (fs (download_and_process_photo http url folder i st) = fs st \<or>
    (\<exists>r' img' es'. http url = Some r' \<and> content r' = Some img' \<and>
       fs st folder = Some (Dir es') \<and>
       fs (download_and_process_photo http url folder i st) =
         (fs st)(folder \<mapsto>
            Dir (put_entry (''photo_'' @ str_nat i @ ''.'' @ lower (format img'))
                   (File (if mode img' \<noteq> ''RGB'' \<and> format img' = ''JPEG''
                          then img'\<lparr>mode := ''RGB''\<rparr> else img')) es'))))"
proof (intro conjI impI)
  assume "http url = Some r \<and> content_type r = Some ''text/html''"
  then show "fs (download_and_process_photo http url folder i st) = fs st"
    by (simp add: download_and_process_photo_def Let_def print_fields text_html_is_no_image)
next
  assume "http url = Some r \<and> content r = Some img \<and> width img = 0"
  then show "fs (download_and_process_photo http url folder i st) = fs st"
    by (simp add: download_and_process_photo_def Let_def print_fields split: option.splits)
next
  assume a: "http url = Some r \<and> status_code r = 200 \<and> content_type r = Some ct \<and>
    substring_in ''image'' ct \<and> content r = Some img \<and> format img = ''JPEG'' \<and>
    mode img \<noteq> ''RGB'' \<and> width img \<noteq> 0 \<and> height img \<noteq> 0 \<and>
    fs st folder = Some (Dir es) \<and>
    map_of es (''photo_'' @ str_nat i @ ''.jpeg'') \<noteq> Some Subdir"
  then show "fs (download_and_process_photo http url folder i st) =
        (fs st)(folder \<mapsto>
           Dir (put_entry (''photo_'' @ str_nat i @ ''.jpeg'')
                  (File (img\<lparr>mode := ''RGB''\<rparr>)) es))"
    by (auto simp: download_and_process_photo_def Let_def save_def lower_JPEG
        split: option.splits entry.splits)
next
  let ?st = "st\<lparr>photo_gets := photo_gets st @ [url]\<rparr>"
  have s: "\<And>img n st'. save img folder n ?st = Some st' \<Longrightarrow>
      \<exists>es. fs st folder = Some (Dir es) \<and>
           fs st' = (fs st)(folder \<mapsto> Dir (put_entry n (File img) es))"
    using save_fs [of _ folder _ ?st] by simp
  show "fs (download_and_process_photo http url folder i st) = fs st \<or>
    (\<exists>r' img' es'. http url = Some r' \<and> content r' = Some img' \<and>
       fs st folder = Some (Dir es') \<and>
       fs (download_and_process_photo http url folder i st) =
         (fs st)(folder \<mapsto>
            Dir (put_entry (''photo_'' @ str_nat i @ ''.'' @ lower (format img'))
                   (File (if mode img' \<noteq> ''RGB'' \<and> format img' = ''JPEG''
                          then img'\<lparr>mode := ''RGB''\<rparr> else img')) es')))"
    unfolding download_and_process_photo_def Let_def
    by (auto simp: print_fields split: option.splits dest!: s)
qed


theorem photo_validation_witness:
  "fs (download_and_process_photo (\<lambda>u. Some html_page) ''u'' ''fish_photos/blue_tang'' 0
         (with_files 0)) = fs (with_files 0) \<and>
   fs (download_and_process_photo (\<lambda>u. Some flat_photo) ''u'' ''fish_photos/blue_tang'' 0
         (with_files 0)) = fs (with_files 0) \<and>
   fs (download_and_process_photo (\<lambda>u. Some cmyk_photo) ''u'' ''fish_photos/blue_tang'' 0
         (with_files 0)) ''fish_photos/blue_tang''
     = Some (Dir [(''photo_0.jpeg'', File a_photo)])"
proof -
  have n: "str_nat 0 = ''0''"
    by code_simp
  have i: "substring_in ''image'' ''image/jpeg''"
    by code_simp
  have f: "fs (with_files 0) ''fish_photos/blue_tang'' = Some (Dir [])"
    by (simp add: with_files_def files_def fresh_process_def)
  have a: "fs (download_and_process_photo (\<lambda>u. Some html_page) ''u'' ''fish_photos/blue_tang'' 0
         (with_files 0)) = fs (with_files 0)"
    using photo_validation
      [where http = "\<lambda>u. Some html_page" and url = "''u''" and r = html_page
         and folder = "''fish_photos/blue_tang''" and i = 0 and st = "with_files 0"]
    by (simp add: html_page_def)
  have b: "fs (download_and_process_photo (\<lambda>u. Some flat_photo) ''u'' ''fish_photos/blue_tang'' 0
         (with_files 0)) = fs (with_files 0)"
    using photo_validation
      [where http = "\<lambda>u. Some flat_photo" and url = "''u''" and r = flat_photo
         and img = "a_photo\<lparr>width := 0\<rparr>"
         and folder = "''fish_photos/blue_tang''" and i = 0 and st = "with_files 0"]
    by (simp add: flat_photo_def)
  have c: "fs (download_and_process_photo (\<lambda>u. Some cmyk_photo) ''u'' ''fish_photos/blue_tang'' 0
         (with_files 0)) =
       (fs (with_files 0))(''fish_photos/blue_tang'' \<mapsto>
           Dir (put_entry (''photo_'' @ str_nat 0 @ ''.jpeg'')
                  (File (a_photo\<lparr>mode := ''CMYK'', mode := ''RGB''\<rparr>)) []))"
    using i f photo_validation
      [where http = "\<lambda>u. Some cmyk_photo" and url = "''u''" and r = cmyk_photo
         and img = "a_photo\<lparr>mode := ''CMYK''\<rparr>" and ct = "''image/jpeg''" and es = "[]"
         and folder = "''fish_photos/blue_tang''" and i = 0 and st = "with_files 0"]
    by (simp add: cmyk_photo_def a_photo_def)
  show ?thesis
    using a b c by (simp add: n a_photo_def)
qed

section \<open>The gate before the downloads\<close>

text \<open>
  C5. The gate compares the number of files with the constant 100, not with the target
  \<open>nb_img\<close>. With a target of 5, a folder that already holds 5 files and a response
  that reports 8 results, the processor still requests the photo: the claim says the
  download is skipped.
\<close>

theorem target_of_five_still_downloads:
  "count_files five_files_cached ''fish_photos/blue_tang'' = Inr 5 \<and>
   photo_gets (snd (process_specy no_api jpeg_http blue_tang 5 five_files_cached))
     = [''https://x/photos/1/medium.jpg'']"
  by code_simp

section \<open>The species argument\<close>

text \<open>
  C10, as stated, fails for the integer 0: \<open>int\<close> accepts the text \<open>0\<close>, the value is
  falsy, and the program runs bulk mode to its end without reaching the split.
\<close>

theorem zero_selects_bulk_mode:
  "py_int default_max_str_digits ''0'' = Some 0 \<and>
   map_option fst
     (main default_max_str_digits 1 no_species no_search no_api no_http (Some ''0'') 100
        (with_files 0))
     = Some (Inr ())"
  by code_simp

text \<open>
  C10, amended. Whatever the digit limit of the interpreter: a text with a comma, and any
  text \<open>int\<close> rejects, ends the process in the argument parser; an integer other than
  zero fails at the split with AttributeError; the integer zero selects bulk mode. In no
  case is a name searched: single-species mode never runs.
\<close>

theorem species_argument_never_single_mode:
  "(CHR '','' \<in> set s \<longrightarrow>
      main max_str_digits fuel counts search api http (Some s) num_images st
        = Some (Inl SystemExit, st)) \<and>
   (py_int max_str_digits s = None \<longrightarrow>
      main max_str_digits fuel counts search api http (Some s) num_images st
        = Some (Inl SystemExit, st)) \<and>
   (py_int max_str_digits s = Some v \<and> v \<noteq> 0 \<longrightarrow>
      main max_str_digits fuel counts search api http (Some s) num_images st
        = Some (Inl AttributeError, st)) \<and>
   (py_int max_str_digits s = Some 0 \<longrightarrow>
      main max_str_digits fuel counts search api http (Some s) num_images st =
        main max_str_digits fuel counts search api http None num_images st) \<and>
   (main max_str_digits fuel counts search api http (Some s) num_images st = Some (r, st') \<longrightarrow>
      searches st' = searches st)"
proof -
  have c: "CHR '','' \<in> set s \<Longrightarrow> py_int max_str_digits s = None"
    using py_int_no_comma [of max_str_digits s] by (cases "py_int max_str_digits s") auto
  have n: "py_int max_str_digits s = None \<Longrightarrow>
      main max_str_digits fuel counts search api http (Some s) num_images st
        = Some (Inl SystemExit, st)"
    by (simp add: main_def parse_species_def)
  have a: "py_int max_str_digits s = Some v \<and> v \<noteq> 0 \<Longrightarrow>
      main max_str_digits fuel counts search api http (Some s) num_images st
        = Some (Inl AttributeError, st)"
    by (simp add: main_def parse_species_def)
  have z: "py_int max_str_digits s = Some 0 \<Longrightarrow>
      main max_str_digits fuel counts search api http (Some s) num_images st =
        main max_str_digits fuel counts search api http None num_images st"
    by (simp add: main_def parse_species_def)
  have k: "main max_str_digits fuel counts search api http (Some s) num_images st
             = Some (r, st') \<Longrightarrow>
      searches st' = searches st"
  proof (cases "py_int max_str_digits s")
    case None
    assume "main max_str_digits fuel counts search api http (Some s) num_images st
              = Some (r, st')"
    with n [OF None] show ?thesis by simp
  next
    case (Some w)
    assume m: "main max_str_digits fuel counts search api http (Some s) num_images st
                 = Some (r, st')"
    show ?thesis
    proof (cases "w = 0")
      case True
      with Some m have
        "process_indian_oceanic_fish_species fuel counts api http num_images st = Some st'"
        by (auto simp: main_def parse_species_def)
      then show ?thesis
        using bulk_mode_kept by (simp add: kept_def)
    next
      case False
      with Some m show ?thesis
        by (simp add: main_def parse_species_def)
    qed
  qed
  show ?thesis
    using c n a z k by (intro conjI impI) simp_all
qed

theorem species_argument_never_single_mode_witness:
  "CHR '','' \<in> set ''Blue Tang,Clownfish'' \<and>
   main default_max_str_digits 1 no_species no_search no_api no_http
     (Some ''Blue Tang,Clownfish'') 100 (with_files 0)
     = Some (Inl SystemExit, with_files 0) \<and>
   py_int default_max_str_digits ''Blue Tang'' = None \<and>
   main default_max_str_digits 1 no_species no_search no_api no_http
     (Some ''Blue Tang'') 100 (with_files 0)
     = Some (Inl SystemExit, with_files 0) \<and>
   py_int default_max_str_digits (char_of (28 :: nat) # ''5'') = None \<and>
   main default_max_str_digits 1 no_species no_search no_api no_http
     (Some (char_of (28 :: nat) # ''5'')) 100 (with_files 0)
     = Some (Inl SystemExit, with_files 0) \<and>
   py_int default_max_str_digits ''5'' = Some 5 \<and>
   main default_max_str_digits 1 no_species no_search no_api no_http
     (Some ''5'') 100 (with_files 0)
     = Some (Inl AttributeError, with_files 0) \<and>
   py_int default_max_str_digits ''0'' = Some 0 \<and>
   main default_max_str_digits 1 no_species no_search no_api no_http
     (Some ''0'') 100 (with_files 0)
     = main default_max_str_digits 1 no_species no_search no_api no_http
         None 100 (with_files 0)"
proof -
  have h1: "CHR '','' \<in> set ''Blue Tang,Clownfish''"
    by simp
  have h2: "py_int default_max_str_digits ''Blue Tang'' = None"
    by code_simp
  have h3: "py_int default_max_str_digits ''5'' = Some 5"
    by code_simp
  have h4: "py_int default_max_str_digits ''0'' = Some 0"
    by code_simp
  have h5: "py_int default_max_str_digits ''5'' = Some 5 \<and> (5::int) \<noteq> 0"
    using h3 by simp
  have h6: "py_int default_max_str_digits (char_of (28 :: nat) # ''5'') = None"
    by code_simp
  note t = species_argument_never_single_mode
    [where max_str_digits = default_max_str_digits and fuel = 1 and counts = no_species
       and search = no_search and api = no_api and http = no_http and num_images = 100
       and st = "with_files 0"]
  note a1 = t [where s = "''Blue Tang,Clownfish''", THEN conjunct1, THEN mp, OF h1]
  note a2 = t [where s = "''Blue Tang''", THEN conjunct2, THEN conjunct1, THEN mp, OF h2]
  note a6 = t [where s = "char_of (28 :: nat) # ''5''", THEN conjunct2, THEN conjunct1,
    THEN mp, OF h6]
  note a3 = t [where s = "''5''" and v = 5, THEN conjunct2, THEN conjunct2, THEN conjunct1,
    THEN mp, OF h5]
  note a4 = t [where s = "''0''", THEN conjunct2, THEN conjunct2, THEN conjunct2,
    THEN conjunct1, THEN mp, OF h4]
  show ?thesis
    by (intro conjI) (rule h1 a1 h2 a2 h6 a6 h3 a3 h4 a4)+
qed

end
